theory Spec2Isabelle
  imports Complex_Main "HOL-Library.List_Lexorder" "HOL-Library.Sublist"
begin

section \<open>Python values\<close>

text \<open>
  A Python \<^verbatim>\<open>str\<close> is a sequence of Unicode code points; it is modelled as a list of
  natural numbers, so that \<^verbatim>\<open>list(word)\<close> splits a word into its code points and
  \<^verbatim>\<open>sorted\<close> compares strings lexicographically by code point. ASCII literals of the
  source are written through \<open>ustr\<close>. A Python float is a real number; what its operations
  round to is a parameter of the model, introduced below.
\<close>

type_synonym ustr = "nat list"

definition ustr :: "string \<Rightarrow> ustr" where
  "ustr s = map of_char s"

text \<open>The code points for which \<^verbatim>\<open>str.isspace\<close> holds; \<^verbatim>\<open>str.split()\<close>,
  \<^verbatim>\<open>str.strip()\<close> and the regular expression class \<^verbatim>\<open>\S\<close> all use this set.\<close>

definition is_space :: "nat \<Rightarrow> bool" where
  "is_space c \<longleftrightarrow>
     (9 \<le> c \<and> c \<le> 13) \<or> (28 \<le> c \<and> c \<le> 32) \<or> c = 133 \<or> c = 160 \<or> c = 5760 \<or>
     (8192 \<le> c \<and> c \<le> 8202) \<or> c = 8232 \<or> c = 8233 \<or> c = 8239 \<or> c = 8287 \<or> c = 12288"

text \<open>\<^verbatim>\<open>s.split()\<close>: the maximal runs of non-whitespace code points, in order.\<close>

fun split_aux :: "ustr \<Rightarrow> ustr \<Rightarrow> ustr list" where
  "split_aux w [] = (if w = [] then [] else [w])"
| "split_aux w (c # cs) =
     (if is_space c then (if w = [] then [] else [w]) @ split_aux [] cs
      else split_aux (w @ [c]) cs)"

definition py_split :: "ustr \<Rightarrow> ustr list" where
  "py_split s = split_aux [] s"

text \<open>\<^verbatim>\<open>s.split(sep)\<close> for a one-character separator: empty fields are kept.\<close>

fun split_on :: "nat \<Rightarrow> ustr \<Rightarrow> ustr \<Rightarrow> ustr list" where
  "split_on sep w [] = [w]"
| "split_on sep w (c # cs) =
     (if c = sep then w # split_on sep [] cs else split_on sep (w @ [c]) cs)"

text \<open>\<^verbatim>\<open>sep.join(xs)\<close>.\<close>

fun py_join :: "ustr \<Rightarrow> ustr list \<Rightarrow> ustr" where
  "py_join sep [] = []"
| "py_join sep [x] = x"
| "py_join sep (x # y # ys) = x @ sep @ py_join sep (y # ys)"

datatype error =
  ValueError | RuntimeError | AssertionError | ZeroDivisionError | IndexError | TypeError
  | OverflowError

subsection \<open>Float arithmetic\<close>

text \<open>
  A Python \<^verbatim>\<open>float\<close> is an IEEE double: every operation rounds its exact result, a tiny
  result underflows to \<^verbatim>\<open>0.0\<close>, and a power that leaves the finite range raises
  \<^verbatim>\<open>OverflowError\<close>. Where a test, a division or an exception of the source depends on the
  rounded value, the model takes the arithmetic of the platform as a parameter:
  \<open>fadd fa x y\<close> is the float that \<^verbatim>\<open>x + y\<close> evaluates to (and \<^verbatim>\<open>x - y\<close> is \<open>fadd fa x (- y)\<close>),
  \<open>fmul\<close>, \<open>fdiv\<close> and \<open>fpow\<close> likewise for \<^verbatim>\<open>*\<close>, \<^verbatim>\<open>/\<close> and \<^verbatim>\<open>**\<close>, \<open>fmax\<close> is the largest
  finite float and \<open>flit c\<close> the float that the decimal literal \<open>c\<close> denotes. Infinities and
  \<^verbatim>\<open>nan\<close> are not values of the model.
\<close>

record float_arith =
  fadd :: "real \<Rightarrow> real \<Rightarrow> real"
  fmul :: "real \<Rightarrow> real \<Rightarrow> real"
  fdiv :: "real \<Rightarrow> real \<Rightarrow> real"
  fpow :: "real \<Rightarrow> real \<Rightarrow> real"
  fmax :: real
  flit :: "real \<Rightarrow> real"

text \<open>The arithmetic that does not round: the values over the reals.\<close>

definition exact_arith :: float_arith where
  "exact_arith =
     \<lparr>fadd = (\<lambda>x y. x + y), fmul = (\<lambda>x y. x * y), fdiv = (\<lambda>x y. x / y),
      fpow = (\<lambda>x y. x powr y), fmax = (2 - 1 / 2 ^ 52) * 2 ^ 1023, flit = (\<lambda>c. c)\<rparr>"

text \<open>\<^verbatim>\<open>sum(xs)\<close> on floats starts from the integer 0, so the first element is taken as it
  is, and adds from left to right.\<close>

fun float_sum :: "float_arith \<Rightarrow> real list \<Rightarrow> real" where
  "float_sum fa [] = 0"
| "float_sum fa (x # xs) = fold (\<lambda>y acc. fadd fa acc y) xs x"

text \<open>
  A Python \<^verbatim>\<open>dict\<close> keeps its keys in insertion order; it is an association list with
  distinct keys. Assigning to a present key keeps its position, assigning to a new key
  appends it.
\<close>

type_synonym ('k, 'v) dict = "('k \<times> 'v) list"

definition dict_get :: "('k, 'v) dict \<Rightarrow> 'k \<Rightarrow> 'v \<Rightarrow> 'v" where
  "dict_get d k dflt = (case map_of d k of None \<Rightarrow> dflt | Some v \<Rightarrow> v)"

fun dict_set :: "('k, 'v) dict \<Rightarrow> 'k \<Rightarrow> 'v \<Rightarrow> ('k, 'v) dict" where
  "dict_set [] k v = [(k, v)]"
| "dict_set ((k', v') # d) k v =
     (if k' = k then (k', v) # d else (k', v') # dict_set d k v)"

text \<open>\<^verbatim>\<open>d[k] += n\<close> on a \<^verbatim>\<open>defaultdict(int)\<close>.\<close>

definition dict_add :: "('k, nat) dict \<Rightarrow> 'k \<Rightarrow> nat \<Rightarrow> ('k, nat) dict" where
  "dict_add d k n = dict_set d k (dict_get d k 0 + n)"

section \<open>The interpolated trigram model\<close>

text \<open>
  The state of a \<^verbatim>\<open>TrigramModel\<close>. A trigram context is a Python tuple: \<^verbatim>\<open>train\<close>
  builds pairs, \<^verbatim>\<open>load\<close> builds \<^verbatim>\<open>tuple(k.split("\t"))\<close> of any length, so a context is
  a list of tokens.
\<close>

record trigram_model =
  lambda1 :: real
  lambda2 :: real
  lambda3 :: real
  unigram_counts :: "(ustr, nat) dict"
  bigram_counts :: "(ustr \<times> ustr, nat) dict"
  trigram_counts :: "(ustr list \<times> ustr, nat) dict"
  unigram_probs :: "(ustr, real) dict"
  bigram_probs :: "(ustr, (ustr, real) dict) dict"
  trigram_probs :: "(ustr list, (ustr, real) dict) dict"
  vocab_size :: nat
  total_tokens :: nat

definition EOT_TOKEN :: ustr where
  "EOT_TOKEN = ustr ''<EOT>''"

definition fresh_model :: "real \<Rightarrow> real \<Rightarrow> real \<Rightarrow> trigram_model" where
  "fresh_model l1 l2 l3 =
     \<lparr>lambda1 = l1, lambda2 = l2, lambda3 = l3,
      unigram_counts = [], bigram_counts = [], trigram_counts = [],
      unigram_probs = [], bigram_probs = [], trigram_probs = [],
      vocab_size = 0, total_tokens = 0\<rparr>"

text \<open>
  \<^verbatim>\<open>__init__\<close>: the assertion \<^verbatim>\<open>abs(lambda1 + lambda2 + lambda3 - 1.0) < 1e-6\<close>, which is
  evaluated in float arithmetic from left to right, then the empty tables.
\<close>

definition weights_accepted :: "float_arith \<Rightarrow> real \<Rightarrow> real \<Rightarrow> real \<Rightarrow> bool" where
  "weights_accepted fa l1 l2 l3 \<longleftrightarrow>
     \<bar>fadd fa (fadd fa (fadd fa l1 l2) l3) (- 1)\<bar> < flit fa (1 / 1000000)"

definition TrigramModel_init ::
  "float_arith \<Rightarrow> real \<Rightarrow> real \<Rightarrow> real \<Rightarrow> error + trigram_model" where
  "TrigramModel_init fa l1 l2 l3 =
     (if weights_accepted fa l1 l2 l3 then Inr (fresh_model l1 l2 l3)
      else Inl AssertionError)"

text \<open>
  The two loops of \<^verbatim>\<open>train\<close> that turn counts keyed by (context, next token) into
  conditional probabilities; the source writes them out once for bigrams and once for
  trigrams. A zero context total would raise \<^verbatim>\<open>ZeroDivisionError\<close>.
\<close>

definition context_totals :: "('c \<times> ustr, nat) dict \<Rightarrow> ('c, nat) dict" where
  "context_totals counts = fold (\<lambda>((c, _), cnt) t. dict_add t c cnt) counts []"

fun conditional_probs ::
  "('c, nat) dict \<Rightarrow> ('c \<times> ustr, nat) dict \<Rightarrow> ('c, (ustr, real) dict) dict
     \<Rightarrow> error + ('c, (ustr, real) dict) dict" where
  "conditional_probs totals [] probs = Inr probs"
| "conditional_probs totals (((c, w), cnt) # items) probs =
     (let probs1 = (if map_of probs c = None then dict_set probs c [] else probs);
          tot = dict_get totals c 0
      in if tot = 0 then Inl ZeroDivisionError
         else conditional_probs totals items
                (dict_set probs1 c (dict_set (dict_get probs1 c []) w (real cnt / real tot))))"

text \<open>The keys counted by \<^verbatim>\<open>train\<close>: \<^verbatim>\<open>(tokens[i], tokens[i + 1])\<close> for
  \<^verbatim>\<open>i < len(tokens) - 1\<close>, and \<^verbatim>\<open>((tokens[i], tokens[i + 1]), tokens[i + 2])\<close> for
  \<^verbatim>\<open>i < len(tokens) - 2\<close>.\<close>

definition bigram_windows :: "ustr list \<Rightarrow> (ustr \<times> ustr) list" where
  "bigram_windows tokens = zip tokens (tl tokens)"

definition trigram_windows :: "ustr list \<Rightarrow> (ustr list \<times> ustr) list" where
  "trigram_windows tokens = zip (map2 (\<lambda>a b. [a, b]) tokens (tl tokens)) (tl (tl tokens))"

text \<open>\<^verbatim>\<open>train\<close>. An estimate is stored as the quotient of its two counts; the float that
  is stored differs from it by the rounding of that one division.\<close>

definition TrigramModel_train :: "trigram_model \<Rightarrow> ustr \<Rightarrow> error + trigram_model" where
  "TrigramModel_train m corpus =
     (let tokens = py_split corpus in
      if length tokens < 3 then Inl ValueError
      else
        let total = length tokens;
            uc = fold (\<lambda>tok d. dict_add d tok 1) tokens (unigram_counts m);
            bc = fold (\<lambda>k d. dict_add d k 1) (bigram_windows tokens) (bigram_counts m);
            tc = fold (\<lambda>k d. dict_add d k 1) (trigram_windows tokens) (trigram_counts m);
            up = fold (\<lambda>(tok, cnt) d. dict_set d tok (real cnt / real total)) uc
                   (unigram_probs m)
        in case conditional_probs (context_totals bc) bc (bigram_probs m) of
             Inl e \<Rightarrow> Inl e
           | Inr bp \<Rightarrow>
              (case conditional_probs (context_totals tc) tc (trigram_probs m) of
                 Inl e \<Rightarrow> Inl e
               | Inr tp \<Rightarrow>
                  Inr (m\<lparr>total_tokens := total, unigram_counts := uc, bigram_counts := bc,
                         trigram_counts := tc, vocab_size := length uc,
                         unigram_probs := up, bigram_probs := bp, trigram_probs := tp\<rparr>)))"

text \<open>\<^verbatim>\<open>_interpolated_prob\<close>. The first assignment to \<^verbatim>\<open>p_bi\<close> in the source is
  overwritten by the second before it is read.\<close>

definition interpolated_prob :: "trigram_model \<Rightarrow> ustr \<Rightarrow> ustr \<Rightarrow> ustr \<Rightarrow> real" where
  "interpolated_prob m w1 w2 w3 =
     (let p_uni = dict_get (unigram_probs m) w3 (1 / real (max (vocab_size m) 1));
          p_bi = dict_get (dict_get (bigram_probs m) w2 []) w3 p_uni;
          p_tri = dict_get (dict_get (trigram_probs m) [w1, w2] []) w3 0
      in lambda3 m * p_tri + lambda2 m * p_bi + lambda1 m * p_uni)"

text \<open>
  \<^verbatim>\<open>_interpolated_prob\<close> as float arithmetic evaluates it: each product and each sum
  rounds. \<open>interpolated_prob\<close> above is its value over exact arithmetic.
\<close>

definition float_interpolated_prob ::
  "float_arith \<Rightarrow> trigram_model \<Rightarrow> ustr \<Rightarrow> ustr \<Rightarrow> ustr \<Rightarrow> real" where
  "float_interpolated_prob fa m w1 w2 w3 =
     (let p_uni = dict_get (unigram_probs m) w3 (fdiv fa 1 (real (max (vocab_size m) 1)));
          p_bi = dict_get (dict_get (bigram_probs m) w2 []) w3 p_uni;
          p_tri = dict_get (dict_get (trigram_probs m) [w1, w2] []) w3 0
      in fadd fa (fadd fa (fmul fa (lambda3 m) p_tri) (fmul fa (lambda2 m) p_bi))
           (fmul fa (lambda1 m) p_uni))"

text \<open>
  The candidate set of \<^verbatim>\<open>_next_token_dist\<close> is a Python \<^verbatim>\<open>set\<close>, whose iteration order
  is not specified (it depends on the string hashes of the process); the order is the
  parameter \<open>ord\<close>, which lists the elements of a finite set. \<open>candidate_scores\<close> is the
  dictionary \<^verbatim>\<open>dist\<close> before it is normalised.
\<close>

type_synonym set_order = "ustr set \<Rightarrow> ustr list"

definition lists_sets :: "set_order \<Rightarrow> bool" where
  "lists_sets ord \<longleftrightarrow> (\<forall>xs. set (ord (set xs)) = set xs \<and> distinct (ord (set xs)))"

definition candidate_scores ::
  "float_arith \<Rightarrow> set_order \<Rightarrow> trigram_model \<Rightarrow> ustr \<Rightarrow> ustr \<Rightarrow> (ustr, real) dict" where
  "candidate_scores fa ord m w1 w2 =
     (let candidates =
            ord (set (map fst (dict_get (trigram_probs m) [w1, w2] []))
                 \<union> set (map fst (dict_get (bigram_probs m) w2 []))
                 \<union> set (map fst (unigram_probs m)))
      in map (\<lambda>w3. (w3, float_interpolated_prob fa m w1 w2 w3)) candidates)"

definition next_token_dist ::
  "float_arith \<Rightarrow> set_order \<Rightarrow> trigram_model \<Rightarrow> ustr \<Rightarrow> ustr \<Rightarrow> (ustr, real) dict" where
  "next_token_dist fa ord m w1 w2 =
     (let distr = candidate_scores fa ord m w1 w2;
          total = float_sum fa (map snd distr)
      in if total > 0 then map (\<lambda>(k, v). (k, fdiv fa v total)) distr else distr)"

subsection \<open>Generation\<close>

text \<open>
  \<^verbatim>\<open>v ** e\<close> on floats: for a positive base the rounded power, which may underflow to
  0.0, and \<^verbatim>\<open>OverflowError\<close> when the power exceeds the largest float; zero to a negative
  power raises \<^verbatim>\<open>ZeroDivisionError\<close>; a negative base has a float result only for an
  integral exponent. For a negative base and a fractional exponent Python yields a complex
  number, which the same iteration of \<^verbatim>\<open>generate\<close> can neither sort nor compare with
  zero, so the iteration ends in an exception; the model raises at the power.
\<close>

definition py_pow :: "float_arith \<Rightarrow> real \<Rightarrow> real \<Rightarrow> error + real" where
  "py_pow fa v e =
     (if v > 0 then
        (if fmax fa < v powr e then Inl OverflowError else Inr (fpow fa v e))
      else if v = 0 then
        (if e < 0 then Inl ZeroDivisionError else if e = 0 then Inr 1 else Inr 0)
      else if e = of_int \<lfloor>e\<rfloor> then
        (if fmax fa < (- v) powr e then Inl OverflowError
         else Inr ((if even \<lfloor>e\<rfloor> then 1 else - 1) * fpow fa (- v) e))
      else Inl TypeError)"

fun pow_all :: "float_arith \<Rightarrow> real \<Rightarrow> (ustr, real) dict \<Rightarrow> error + (ustr, real) dict" where
  "pow_all fa e [] = Inr []"
| "pow_all fa e ((k, v) # d) =
     (case py_pow fa v e of
        Inl err \<Rightarrow> Inl err
      | Inr p \<Rightarrow> (case pow_all fa e d of Inl err \<Rightarrow> Inl err | Inr d' \<Rightarrow> Inr ((k, p) # d')))"

text \<open>\<^verbatim>\<open>{k: v / total for k, v in dist.items()}\<close> after \<^verbatim>\<open>total = sum(dist.values())\<close>:
  the division raises on the first item when the total is zero, and nothing is divided
  when there is no item.\<close>

definition renormalise :: "float_arith \<Rightarrow> (ustr, real) dict \<Rightarrow> error + (ustr, real) dict" where
  "renormalise fa d =
     (let total = float_sum fa (map snd d)
      in if d \<noteq> [] \<and> total = 0 then Inl ZeroDivisionError
         else Inr (map (\<lambda>(k, v). (k, fdiv fa v total)) d))"

definition apply_temperature ::
  "float_arith \<Rightarrow> real \<Rightarrow> (ustr, real) dict \<Rightarrow> error + (ustr, real) dict" where
  "apply_temperature fa temperature distr =
     (if temperature \<noteq> 1 then
        (if temperature = 0 then Inl ZeroDivisionError
         else case pow_all fa (fdiv fa 1 temperature) distr of
                Inl err \<Rightarrow> Inl err
              | Inr d \<Rightarrow> renormalise fa d)
      else Inr distr)"

text \<open>\<^verbatim>\<open>xs[:k]\<close>: a negative \<open>k\<close> counts from the end.\<close>

definition slice_to :: "int \<Rightarrow> 'a list \<Rightarrow> 'a list" where
  "slice_to k xs = (if 0 \<le> k then take (nat k) xs else take (length xs - nat (- k)) xs)"

text \<open>\<^verbatim>\<open>sorted\<close> is stable, as \<open>sort_key\<close> is.\<close>

definition apply_top_k ::
  "float_arith \<Rightarrow> int option \<Rightarrow> (ustr, real) dict \<Rightarrow> error + (ustr, real) dict" where
  "apply_top_k fa top_k distr =
     (case top_k of
        None \<Rightarrow> Inr distr
      | Some k \<Rightarrow> renormalise fa (slice_to k (sort_key (\<lambda>x. - snd x) distr)))"

text \<open>
  \<^verbatim>\<open>random.choices(words, weights=weights, k=1)[0]\<close> of the standard library, for the
  value \<open>u\<close> that \<^verbatim>\<open>random()\<close> returns: the running sums, their last element as the total
  (an empty population raises \<^verbatim>\<open>IndexError\<close>, a total that is not positive raises
  \<^verbatim>\<open>ValueError\<close>), and a right bisection of \<open>u * total\<close> between 0 and \<open>n - 1\<close>.
\<close>

fun accumulate_from :: "float_arith \<Rightarrow> real \<Rightarrow> real list \<Rightarrow> real list" where
  "accumulate_from fa acc [] = []"
| "accumulate_from fa acc (x # xs) = fadd fa acc x # accumulate_from fa (fadd fa acc x) xs"

definition accumulate :: "float_arith \<Rightarrow> real list \<Rightarrow> real list" where
  "accumulate fa xs = (case xs of [] \<Rightarrow> [] | x # rest \<Rightarrow> x # accumulate_from fa x rest)"

function bisect :: "real list \<Rightarrow> real \<Rightarrow> nat \<Rightarrow> nat \<Rightarrow> nat" where
  "bisect a x lo hi =
     (if lo < hi then
        (let mid = (lo + hi) div 2
         in if x < a ! mid then bisect a x lo mid else bisect a x (mid + 1) hi)
      else lo)"
  by pat_completeness auto
termination
  by (relation "measure (\<lambda>(a, x, lo, hi). hi - lo)") auto

declare bisect.simps [simp del]

definition random_choices ::
  "float_arith \<Rightarrow> real \<Rightarrow> ustr list \<Rightarrow> real list \<Rightarrow> error + ustr" where
  "random_choices fa u population weights =
     (let n = length population;
          cum_weights = accumulate fa weights
      in if length cum_weights \<noteq> n then Inl ValueError
         else if cum_weights = [] then Inl IndexError
         else
           let total = last cum_weights
           in if total \<le> 0 then Inl ValueError
              else Inr (population ! bisect cum_weights (fmul fa u total) 0 (n - 1)))"

text \<open>
  The loop of \<^verbatim>\<open>generate\<close>: \<open>n\<close> iterations remain, \<open>i\<close> draws have been made, and
  \<open>rnd i\<close> is the value the generator returns at the next draw.
\<close>

fun generate_loop ::
  "float_arith \<Rightarrow> set_order \<Rightarrow> trigram_model \<Rightarrow> (nat \<Rightarrow> real) \<Rightarrow> real \<Rightarrow> int option
     \<Rightarrow> nat \<Rightarrow> nat \<Rightarrow> ustr list \<Rightarrow> error + ustr list" where
  "generate_loop fa ord m rnd temperature top_k 0 i tokens = Inr tokens"
| "generate_loop fa ord m rnd temperature top_k (Suc n) i tokens =
     (let w1 = tokens ! (length tokens - 2);
          w2 = tokens ! (length tokens - 1);
          distr = next_token_dist fa ord m w1 w2
      in if distr = [] then Inr tokens
         else
           case apply_temperature fa temperature distr of
             Inl err \<Rightarrow> Inl err
           | Inr distr1 \<Rightarrow>
              (case apply_top_k fa top_k distr1 of
                 Inl err \<Rightarrow> Inl err
               | Inr distr2 \<Rightarrow>
                  (case random_choices fa (rnd i) (map fst distr2) (map snd distr2) of
                     Inl err \<Rightarrow> Inl err
                   | Inr next_token \<Rightarrow>
                       if next_token = EOT_TOKEN then Inr (tokens @ [next_token])
                       else generate_loop fa ord m rnd temperature top_k n (Suc i)
                              (tokens @ [next_token]))))"

text \<open>
  \<^verbatim>\<open>generate\<close> up to its last line: the token list that is then joined. The values of
  the random generator are parameters: \<open>unseeded\<close> are those of the process-wide
  generator as it stands, \<open>seeded s\<close> those after \<^verbatim>\<open>random.seed(s)\<close>.
\<close>

definition generate_tokens ::
  "float_arith \<Rightarrow> set_order \<Rightarrow> (nat \<Rightarrow> real) \<Rightarrow> (int \<Rightarrow> nat \<Rightarrow> real) \<Rightarrow> trigram_model
     \<Rightarrow> ustr list \<Rightarrow> int \<Rightarrow> real \<Rightarrow> int option \<Rightarrow> int option \<Rightarrow> error + ustr list" where
  "generate_tokens fa ord unseeded seeded m seed max_length temperature top_k random_seed =
     (if length seed < 2 then Inl ValueError
      else if unigram_probs m = [] then Inl RuntimeError
      else
        let rnd = (case random_seed of None \<Rightarrow> unseeded | Some s \<Rightarrow> seeded s)
        in generate_loop fa ord m rnd temperature top_k (nat max_length) 0 seed)"

definition generate ::
  "float_arith \<Rightarrow> set_order \<Rightarrow> (nat \<Rightarrow> real) \<Rightarrow> (int \<Rightarrow> nat \<Rightarrow> real) \<Rightarrow> trigram_model
     \<Rightarrow> ustr list \<Rightarrow> int \<Rightarrow> real \<Rightarrow> int option \<Rightarrow> int option \<Rightarrow> error + ustr" where
  "generate fa ord unseeded seeded m seed max_length temperature top_k random_seed =
     (case generate_tokens fa ord unseeded seeded m seed max_length temperature top_k
             random_seed of
        Inl err \<Rightarrow> Inl err
      | Inr tokens \<Rightarrow> Inr (py_join [32] tokens))"

subsection \<open>Perplexity\<close>

definition perplexity :: "trigram_model \<Rightarrow> ustr \<Rightarrow> error + real" where
  "perplexity m test_corpus =
     (let tokens = py_split test_corpus in
      if length tokens < 3 then Inl ValueError
      else
        let windows = zip tokens (zip (tl tokens) (tl (tl tokens)));
            log_prob_sum =
              fold (\<lambda>(w1, w2, w3) s. s + ln (max (interpolated_prob m w1 w2 w3) (1 / 10 ^ 10)))
                windows 0;
            count = length windows
        in Inr (exp (- log_prob_sum / real count)))"

subsection \<open>Persistence\<close>

text \<open>The JSON object written by \<^verbatim>\<open>save\<close> and read by \<^verbatim>\<open>load\<close>.\<close>

record persisted_model =
  p_lambda1 :: real
  p_lambda2 :: real
  p_lambda3 :: real
  p_unigram_probs :: "(ustr, real) dict"
  p_bigram_probs :: "(ustr, (ustr, real) dict) dict"
  p_trigram_probs :: "(ustr, (ustr, real) dict) dict"
  p_vocab_size :: nat
  p_total_tokens :: nat

text \<open>The key \<^verbatim>\<open>f"{ctx[0]}\t{ctx[1]}"\<close>; a context shorter than two raises
  \<^verbatim>\<open>IndexError\<close>.\<close>

fun save_trigram_keys ::
  "(ustr list, (ustr, real) dict) dict \<Rightarrow> (ustr, (ustr, real) dict) dict
     \<Rightarrow> error + (ustr, (ustr, real) dict) dict" where
  "save_trigram_keys [] out = Inr out"
| "save_trigram_keys ((ctx, probs) # rest) out =
     (case ctx of
        a # b # _ \<Rightarrow> save_trigram_keys rest (dict_set out (a @ [9] @ b) probs)
      | _ \<Rightarrow> Inl IndexError)"

definition TrigramModel_save :: "trigram_model \<Rightarrow> error + persisted_model" where
  "TrigramModel_save m =
     (case save_trigram_keys (trigram_probs m) [] of
        Inl e \<Rightarrow> Inl e
      | Inr tp \<Rightarrow>
          Inr \<lparr>p_lambda1 = lambda1 m, p_lambda2 = lambda2 m, p_lambda3 = lambda3 m,
               p_unigram_probs = unigram_probs m,
               p_bigram_probs = fold (\<lambda>(w1, probs) d. dict_set d w1 probs) (bigram_probs m) [],
               p_trigram_probs = tp,
               p_vocab_size = vocab_size m, p_total_tokens = total_tokens m\<rparr>)"

definition TrigramModel_load :: "trigram_model \<Rightarrow> persisted_model \<Rightarrow> trigram_model" where
  "TrigramModel_load m st =
     m\<lparr>lambda1 := p_lambda1 st, lambda2 := p_lambda2 st, lambda3 := p_lambda3 st,
       unigram_probs := p_unigram_probs st,
       bigram_probs := p_bigram_probs st,
       trigram_probs :=
         fold (\<lambda>(k, probs) d. dict_set d (split_on 9 [] k) probs) (p_trigram_probs st) [],
       vocab_size := p_vocab_size st, total_tokens := p_total_tokens st\<rparr>"

text \<open>
  The states a program can reach: a constructed model, a trained one, and one that has
  loaded a file, whatever the file holds (\<^verbatim>\<open>load\<close> checks nothing). \<open>built\<close> are the states
  reached by construction and training alone.
\<close>

inductive reachable :: "float_arith \<Rightarrow> trigram_model \<Rightarrow> bool" for fa where
  r_init: "TrigramModel_init fa l1 l2 l3 = Inr m \<Longrightarrow> reachable fa m"
| r_train: "reachable fa m \<Longrightarrow> TrigramModel_train m corpus = Inr m' \<Longrightarrow> reachable fa m'"
| r_load: "reachable fa m \<Longrightarrow> reachable fa (TrigramModel_load m st)"

inductive built :: "float_arith \<Rightarrow> trigram_model \<Rightarrow> bool" for fa where
  b_init: "TrigramModel_init fa l1 l2 l3 = Inr m \<Longrightarrow> built fa m"
| b_train: "built fa m \<Longrightarrow> TrigramModel_train m corpus = Inr m' \<Longrightarrow> built fa m'"

section \<open>Definitions used in the statements and proofs\<close>

text \<open>The sum of the counts of a dictionary over the keys that satisfy a predicate.\<close>

definition wsum :: "('k \<Rightarrow> bool) \<Rightarrow> ('k, nat) dict \<Rightarrow> nat" where
  "wsum P d = sum_list (map snd (filter (\<lambda>kv. P (fst kv)) d))"

text \<open>
  What the conditional-probability loop has stored under a context \<open>c\<close> once it has
  processed the count items \<open>xs\<close>, for context totals \<open>T\<close>; and the table as a whole.
\<close>

definition inner :: "('c \<Rightarrow> nat) \<Rightarrow> 'c \<Rightarrow> ('c \<times> ustr, nat) dict \<Rightarrow> (ustr, real) dict" where
  "inner T c xs =
     map (\<lambda>kv. (snd (fst kv), real (snd kv) / real (T c))) (filter (\<lambda>kv. fst (fst kv) = c) xs)"

definition grouped ::
  "('c \<Rightarrow> nat) \<Rightarrow> ('c, (ustr, real) dict) dict \<Rightarrow> ('c \<times> ustr, nat) dict \<Rightarrow> bool" where
  "grouped T P xs \<longleftrightarrow>
     distinct (map fst P) \<and>
     (\<forall>c. map_of P c = (if c \<in> (\<lambda>kv. fst (fst kv)) ` set xs then Some (inner T c xs) else None))"

text \<open>
  The estimates as the specification words them, over the token list of the corpus: the
  unigram estimate with its uniform fallback, the conditional bigram estimate
  \<open>count(prev, next) / \<Sum> count(prev, \<cdot>)\<close>, the trigram estimate that is 0 for an unobserved
  context or continuation, and the interpolation of the three as the specification
  states it.
\<close>

definition spec_P_uni :: "ustr list \<Rightarrow> ustr \<Rightarrow> real" where
  "spec_P_uni tokens w3 =
     (if w3 \<in> set tokens then real (count_list tokens w3) / real (length tokens)
      else 1 / real (card (set tokens)))"

definition spec_P_bi :: "ustr list \<Rightarrow> ustr \<Rightarrow> ustr \<Rightarrow> real" where
  "spec_P_bi tokens w2 w3 =
     real (count_list (bigram_windows tokens) (w2, w3))
       / real (length (filter (\<lambda>k. fst k = w2) (bigram_windows tokens)))"

definition spec_P_tri :: "ustr list \<Rightarrow> ustr \<Rightarrow> ustr \<Rightarrow> ustr \<Rightarrow> real" where
  "spec_P_tri tokens w1 w2 w3 =
     (if ([w1, w2], w3) \<in> set (trigram_windows tokens)
      then real (count_list (trigram_windows tokens) ([w1, w2], w3))
             / real (length (filter (\<lambda>k. fst k = [w1, w2]) (trigram_windows tokens)))
      else 0)"

definition spec_interpolated ::
  "real \<Rightarrow> real \<Rightarrow> real \<Rightarrow> ustr list \<Rightarrow> ustr \<Rightarrow> ustr \<Rightarrow> ustr \<Rightarrow> real" where
  "spec_interpolated l1 l2 l3 tokens w1 w2 w3 =
     l1 * spec_P_uni tokens w3 + l2 * spec_P_bi tokens w2 w3 + l3 * spec_P_tri tokens w1 w2 w3"


definition float_accurate :: "float_arith \<Rightarrow> bool" where
  "float_accurate fa \<longleftrightarrow>
     (\<forall>x y. \<bar>fadd fa x y - (x + y)\<bar> \<le> \<bar>x + y\<bar> / 2 ^ 53)
     \<and> \<bar>flit fa (1 / 1000000) - 1 / 1000000\<bar> \<le> (1 / 1000000) / 2 ^ 53"

text \<open>A file whose weights are (0.25, 0.25, 0.25) and whose tables are empty.\<close>

definition bad_weights_file :: persisted_model where
  "bad_weights_file =
     \<lparr>p_lambda1 = 1 / 4, p_lambda2 = 1 / 4, p_lambda3 = 1 / 4,
      p_unigram_probs = [], p_bigram_probs = [], p_trigram_probs = [],
      p_vocab_size = 0, p_total_tokens = 0\<rparr>"

section \<open>Dictionaries and counting\<close>

lemma map_of_dict_set: "map_of (dict_set d k v) = (map_of d)(k \<mapsto> v)"
  by (induction d) (auto simp: fun_eq_iff)

lemma keys_dict_set:
  "map fst (dict_set d k v) = (if k \<in> fst ` set d then map fst d else map fst d @ [k])"
  by (induction d k v rule: dict_set.induct) (auto simp: image_iff)

lemma distinct_dict_set: "distinct (map fst d) \<Longrightarrow> distinct (map fst (dict_set d k v))"
  by (simp add: keys_dict_set)

lemma dict_set_fresh: "k \<notin> fst ` set d \<Longrightarrow> dict_set d k v = d @ [(k, v)]"
  by (induction d) auto

lemma dict_get_Cons:
  "dict_get ((k', v') # d) k x = (if k' = k then v' else dict_get d k x)"
  by (simp add: dict_get_def)

lemma wsum_dict_add: "wsum P (dict_add d k n) = wsum P d + (if P k then n else 0)"
  by (induction d) (auto simp: wsum_def dict_add_def dict_get_Cons dict_get_def)

lemma map_of_dict_add:
  "map_of (dict_add d k n) = (map_of d)(k \<mapsto> dict_get d k 0 + n)"
  by (simp add: dict_add_def map_of_dict_set)

lemma keys_dict_add: "set (map fst (dict_add d k n)) = insert k (set (map fst d))"
  by (auto simp: dict_add_def keys_dict_set)

lemma distinct_dict_add: "distinct (map fst d) \<Longrightarrow> distinct (map fst (dict_add d k n))"
  by (simp add: dict_add_def distinct_dict_set)

lemma wsum_count:
  "wsum P (fold (\<lambda>k d. dict_add d (f k) (g k)) ks d) = wsum P d + sum_list (map g (filter (\<lambda>k. P (f k)) ks))"
  by (induction ks arbitrary: d) (auto simp: wsum_dict_add)

lemma keys_count:
  "set (map fst (fold (\<lambda>k d. dict_add d (f k) (g k)) ks d)) = set (map fst d) \<union> f ` set ks"
  by (induction ks arbitrary: d) (auto simp: keys_dict_add simp del: set_map)

lemma distinct_count:
  "distinct (map fst d) \<Longrightarrow> distinct (map fst (fold (\<lambda>k d. dict_add d (f k) (g k)) ks d))"
  by (induction ks arbitrary: d) (auto simp: distinct_dict_add)

lemma dict_get_wsum:
  "distinct (map fst d) \<Longrightarrow> dict_get d k 0 = wsum (\<lambda>x. x = k) d"
  by (induction d) (auto simp: dict_get_Cons wsum_def dict_get_def image_iff
      intro!: sum_list_0 split: option.splits)

lemma inner_snoc:
  "inner T c (xs @ [((c', w), n)]) =
     (if c' = c then inner T c xs @ [(w, real n / real (T c))] else inner T c xs)"
  by (simp add: inner_def)

lemma inner_keys: "fst ` set (inner T c xs) = {w. (c, w) \<in> fst ` set xs}"
  by (force simp: inner_def image_iff)

lemma inner_empty: "c \<notin> (\<lambda>kv. fst (fst kv)) ` set xs \<Longrightarrow> inner T c xs = []"
  by (auto simp: inner_def filter_empty_conv)

lemma grouped_step:
  assumes g: "grouped T P xs" and fresh: "(c, w) \<notin> fst ` set xs"
  defines "probs1 \<equiv> (if map_of P c = None then dict_set P c [] else P)"
  shows "grouped T (dict_set probs1 c (dict_set (dict_get probs1 c []) w (real n / real (T c))))
           (xs @ [((c, w), n)])"
proof -
  have d: "dict_get probs1 c [] = inner T c xs"
  proof (cases "c \<in> (\<lambda>kv. fst (fst kv)) ` set xs")
    case True
    with g have "map_of P c = Some (inner T c xs)" by (simp add: grouped_def)
    then show ?thesis by (simp add: probs1_def dict_get_def)
  next
    case False
    with g have "map_of P c = None" by (simp add: grouped_def)
    then show ?thesis using False
      by (simp add: probs1_def dict_get_def map_of_dict_set inner_empty)
  qed
  have "w \<notin> fst ` set (inner T c xs)" using fresh by (simp add: inner_keys)
  then have s: "dict_set (inner T c xs) w (real n / real (T c)) = inner T c (xs @ [((c, w), n)])"
    by (simp add: dict_set_fresh inner_snoc)
  have dist: "distinct (map fst probs1)"
    using g by (simp add: probs1_def grouped_def distinct_dict_set)
  have m: "map_of probs1 c' = map_of P c'" if "c' \<noteq> c" for c'
    using that by (simp add: probs1_def map_of_dict_set)
  show ?thesis
    unfolding grouped_def d s
  proof (intro conjI allI)
    show "distinct (map fst (dict_set probs1 c (inner T c (xs @ [((c, w), n)]))))"
      using dist by (rule distinct_dict_set)
  next
    fix c'
    show "map_of (dict_set probs1 c (inner T c (xs @ [((c, w), n)]))) c' =
          (if c' \<in> (\<lambda>kv. fst (fst kv)) ` set (xs @ [((c, w), n)])
           then Some (inner T c' (xs @ [((c, w), n)])) else None)"
    proof (cases "c' = c")
      case True
      then show ?thesis by (simp add: map_of_dict_set)
    next
      case False
      then show ?thesis using g m [OF False]
        by (simp add: map_of_dict_set grouped_def inner_snoc)
    qed
  qed
qed

lemma conditional_probs_grouped:
  assumes "grouped (\<lambda>c. dict_get totals c 0) P xs"
    and "distinct (map fst (xs @ items))"
    and "\<forall>kv \<in> set items. dict_get totals (fst (fst kv)) 0 \<noteq> 0"
  shows "\<exists>P'. conditional_probs totals items P = Inr P'
              \<and> grouped (\<lambda>c. dict_get totals c 0) P' (xs @ items)"
  using assms
proof (induction items arbitrary: P xs)
  case Nil
  then show ?case by simp
next
  case (Cons item items)
  obtain c w n where item: "item = ((c, w), n)" by (metis prod.collapse)
  let ?T = "\<lambda>c. dict_get totals c 0"
  let ?probs1 = "(if map_of P c = None then dict_set P c [] else P)"
  let ?P1 = "dict_set ?probs1 c (dict_set (dict_get ?probs1 c []) w (real n / real (?T c)))"
  have fresh: "(c, w) \<notin> fst ` set xs" using Cons.prems(2) by (auto simp: item)
  have g1: "grouped ?T ?P1 (xs @ [((c, w), n)])"
    using grouped_step [OF Cons.prems(1) fresh] by simp
  have d1: "distinct (map fst ((xs @ [((c, w), n)]) @ items))"
    using Cons.prems(2) by (simp add: item)
  have nz: "\<forall>kv \<in> set items. ?T (fst (fst kv)) \<noteq> 0" using Cons.prems(3) by simp
  from Cons.IH [OF g1 d1 nz] obtain P' where
    "conditional_probs totals items ?P1 = Inr P'"
    "grouped ?T P' ((xs @ [((c, w), n)]) @ items)" by blast
  moreover have "?T c \<noteq> 0" using Cons.prems(3) by (simp add: item)
  ultimately show ?case by (simp add: item Let_def)
qed

lemma context_totals_wsum:
  "distinct (map fst (context_totals xs))"
  "dict_get (context_totals xs) c 0 = wsum (\<lambda>k. fst k = c) xs"
proof -
  have eq: "context_totals xs = fold (\<lambda>kv t. dict_add t (fst (fst kv)) (snd kv)) xs []"
    unfolding context_totals_def by (rule arg_cong [where f = "\<lambda>f. fold f xs []"]) (auto simp: fun_eq_iff)
  show d: "distinct (map fst (context_totals xs))"
    unfolding eq by (rule distinct_count) simp
  have "dict_get (context_totals xs) c 0 = wsum (\<lambda>x. x = c) (context_totals xs)"
    using d by (rule dict_get_wsum)
  also have "\<dots> = sum_list (map snd (filter (\<lambda>kv. fst (fst kv) = c) xs))"
    unfolding eq by (simp add: wsum_count) (simp add: wsum_def)
  finally show "dict_get (context_totals xs) c 0 = wsum (\<lambda>k. fst k = c) xs"
    by (simp add: wsum_def)
qed

lemma wsum_ge_member:
  "(k, n) \<in> set d \<Longrightarrow> P k \<Longrightarrow> n \<le> wsum P d"
  by (induction d) (auto simp: wsum_def)

lemma conditional_probs_fresh:
  assumes d: "distinct (map fst xs)" and pos: "\<forall>kv \<in> set xs. 0 < snd kv"
  shows "\<exists>P. conditional_probs (context_totals xs) xs [] = Inr P
             \<and> grouped (\<lambda>c. wsum (\<lambda>k. fst k = c) xs) P xs"
proof -
  have T: "(\<lambda>c. dict_get (context_totals xs) c 0) = (\<lambda>c. wsum (\<lambda>k. fst k = c) xs)"
    by (simp add: context_totals_wsum fun_eq_iff)
  have g0: "grouped (\<lambda>c. dict_get (context_totals xs) c 0) [] []" by (simp add: grouped_def)
  have nz: "\<forall>kv \<in> set xs. dict_get (context_totals xs) (fst (fst kv)) 0 \<noteq> 0"
  proof
    fix kv assume kv: "kv \<in> set xs"
    then have "(fst kv, snd kv) \<in> set xs" by simp
    then have "snd kv \<le> wsum (\<lambda>k. fst k = fst (fst kv)) xs" by (rule wsum_ge_member) simp
    with pos kv show "dict_get (context_totals xs) (fst (fst kv)) 0 \<noteq> 0"
      by (auto simp: context_totals_wsum)
  qed
  from conditional_probs_grouped [OF g0 _ nz] d show ?thesis by (simp add: T)
qed

lemma sum_inner:
  "sum_list (map snd (inner T c xs)) = real (wsum (\<lambda>k. fst k = c) xs) / real (T c)"
proof -
  have "sum_list (map snd (inner T c xs))
        = (\<Sum>kv\<leftarrow>filter (\<lambda>kv. fst (fst kv) = c) xs. real (snd kv) / real (T c))"
    by (simp add: inner_def comp_def)
  also have "\<dots> = (\<Sum>kv\<leftarrow>filter (\<lambda>kv. fst (fst kv) = c) xs. real (snd kv)) / real (T c)"
    by (induction xs) (auto simp: add_divide_distrib)
  also have "(\<Sum>kv\<leftarrow>filter (\<lambda>kv. fst (fst kv) = c) xs. real (snd kv))
             = real (wsum (\<lambda>k. fst k = c) xs)"
    by (induction xs) (auto simp: wsum_def)
  finally show ?thesis .
qed


lemma count_list_filter: "count_list ks k = length (filter (\<lambda>x. x = k) ks)"
  by (induction ks) auto

lemma count_dict:
  fixes ks :: "'k list"
  defines "D \<equiv> fold (\<lambda>k d. dict_add d k (1::nat)) ks []"
  shows "distinct (map fst D)" and "set (map fst D) = set ks"
    and "wsum P D = length (filter P ks)"
    and "map_of D k = (if k \<in> set ks then Some (count_list ks k) else None)"
    and "\<forall>kv \<in> set D. 0 < snd kv"
proof -
  have eq: "D = fold (\<lambda>k d. dict_add d ((\<lambda>k. k) k) ((\<lambda>_. 1) k)) ks []"
    by (simp add: D_def)
  show d: "distinct (map fst D)" unfolding eq by (rule distinct_count) simp
  show s: "set (map fst D) = set ks" unfolding eq keys_count by simp
  show w: "wsum P D = length (filter P ks)" for P
    unfolding eq wsum_count by (simp add: wsum_def sum_list_triv)
  have c: "dict_get D k 0 = count_list ks k" for k
    using dict_get_wsum [OF d, of k] w [of "\<lambda>x. x = k"]
    by (simp add: count_list_filter)
  show m: "map_of D k = (if k \<in> set ks then Some (count_list ks k) else None)" for k
  proof (cases "k \<in> set ks")
    case True
    with s have "k \<in> fst ` set D" by simp
    then obtain v where "map_of D k = Some v"
      by (metis domD dom_map_of_conv_image_fst)
    with c [of k] True show ?thesis by (simp add: dict_get_def)
  next
    case False
    with s have "k \<notin> fst ` set D" by simp
    then show ?thesis using False by (simp add: map_of_eq_None_iff)
  qed
  show "\<forall>kv \<in> set D. 0 < snd kv"
  proof
    fix kv assume kv: "kv \<in> set D"
    then have "map_of D (fst kv) = Some (snd kv)" using d by simp
    moreover have "fst kv \<in> set ks" using kv s by force
    ultimately show "0 < snd kv"
      using m [of "fst kv"] count_list_0_iff [of ks "fst kv"] by auto
  qed
qed

lemma fold_dict_set_map:
  "distinct (map fst d0 @ map fst xs) \<Longrightarrow>
   fold (\<lambda>(k, v) d. dict_set d k (h v)) xs d0 = d0 @ map (\<lambda>kv. (fst kv, h (snd kv))) xs"
proof (induction xs arbitrary: d0)
  case Nil
  then show ?case by simp
next
  case (Cons x xs)
  obtain k v where x: "x = (k, v)" by (cases x)
  have "k \<notin> fst ` set d0" using Cons.prems by (auto simp: x)
  then have s: "dict_set d0 k (h v) = d0 @ [(k, h v)]" by (rule dict_set_fresh)
  have "distinct (map fst (d0 @ [(k, h v)]) @ map fst xs)" using Cons.prems by (auto simp: x)
  from Cons.IH [OF this] show ?case by (simp add: x s)
qed

lemma train_fresh:
  assumes tr: "TrigramModel_train (fresh_model l1 l2 l3) corpus = Inr m"
  shows "3 \<le> length (py_split corpus)"
    and "lambda1 m = l1" and "lambda2 m = l2" and "lambda3 m = l3"
    and "unigram_counts m = fold (\<lambda>k d. dict_add d k 1) (py_split corpus) []"
    and "bigram_counts m = fold (\<lambda>k d. dict_add d k 1) (bigram_windows (py_split corpus)) []"
    and "trigram_counts m = fold (\<lambda>k d. dict_add d k 1) (trigram_windows (py_split corpus)) []"
    and "vocab_size m = length (unigram_counts m)"
    and "unigram_probs m =
           map (\<lambda>kv. (fst kv, real (snd kv) / real (length (py_split corpus)))) (unigram_counts m)"
    and "grouped (\<lambda>c. wsum (\<lambda>k. fst k = c) (bigram_counts m)) (bigram_probs m) (bigram_counts m)"
    and "grouped (\<lambda>c. wsum (\<lambda>k. fst k = c) (trigram_counts m)) (trigram_probs m) (trigram_counts m)"
proof -
  let ?toks = "py_split corpus"
  let ?uc = "fold (\<lambda>k d. dict_add d k (1::nat)) ?toks []"
  let ?bc = "fold (\<lambda>k d. dict_add d k (1::nat)) (bigram_windows ?toks) []"
  let ?tc = "fold (\<lambda>k d. dict_add d k (1::nat)) (trigram_windows ?toks) []"
  show len: "3 \<le> length ?toks"
    using tr by (auto simp: TrigramModel_train_def Let_def split: if_splits)
  obtain bp where bp: "conditional_probs (context_totals ?bc) ?bc [] = Inr bp"
    "grouped (\<lambda>c. wsum (\<lambda>k. fst k = c) ?bc) bp ?bc"
    using conditional_probs_fresh [OF count_dict(1) count_dict(5), of "bigram_windows ?toks"]
    by blast
  obtain tp where tp: "conditional_probs (context_totals ?tc) ?tc [] = Inr tp"
    "grouped (\<lambda>c. wsum (\<lambda>k. fst k = c) ?tc) tp ?tc"
    using conditional_probs_fresh [OF count_dict(1) count_dict(5), of "trigram_windows ?toks"]
    by blast
  have up: "fold (\<lambda>(tok, cnt) d. dict_set d tok (real cnt / real (length ?toks))) ?uc []
            = map (\<lambda>kv. (fst kv, real (snd kv) / real (length ?toks))) ?uc"
    using fold_dict_set_map [of "[]" ?uc "\<lambda>cnt. real cnt / real (length ?toks)"] count_dict(1) [of ?toks]
    by simp
  have m: "m = (fresh_model l1 l2 l3)\<lparr>total_tokens := length ?toks, unigram_counts := ?uc,
               bigram_counts := ?bc, trigram_counts := ?tc, vocab_size := length ?uc,
               unigram_probs := map (\<lambda>kv. (fst kv, real (snd kv) / real (length ?toks))) ?uc,
               bigram_probs := bp, trigram_probs := tp\<rparr>"
    using tr len bp(1) tp(1) up
    by (simp add: TrigramModel_train_def Let_def fresh_model_def)
  show "lambda1 m = l1" "lambda2 m = l2" "lambda3 m = l3"
    by (simp_all add: m fresh_model_def)
  show "unigram_counts m = ?uc" "bigram_counts m = ?bc" "trigram_counts m = ?tc"
    by (simp_all add: m)
  show "vocab_size m = length (unigram_counts m)" by (simp add: m)
  show "unigram_probs m = map (\<lambda>kv. (fst kv, real (snd kv) / real (length ?toks))) (unigram_counts m)"
    by (simp add: m)
  show "grouped (\<lambda>c. wsum (\<lambda>k. fst k = c) (bigram_counts m)) (bigram_probs m) (bigram_counts m)"
    using bp(2) by (simp add: m)
  show "grouped (\<lambda>c. wsum (\<lambda>k. fst k = c) (trigram_counts m)) (trigram_probs m) (trigram_counts m)"
    using tp(2) by (simp add: m)
qed

lemma train_fresh_succeeds:
  assumes "3 \<le> length (py_split corpus)"
  shows "\<exists>m. TrigramModel_train (fresh_model l1 l2 l3) corpus = Inr m"
proof -
  let ?toks = "py_split corpus"
  let ?bc = "fold (\<lambda>k d. dict_add d k (1::nat)) (bigram_windows ?toks) []"
  let ?tc = "fold (\<lambda>k d. dict_add d k (1::nat)) (trigram_windows ?toks) []"
  obtain bp where bp: "conditional_probs (context_totals ?bc) ?bc [] = Inr bp"
    using conditional_probs_fresh [OF count_dict(1) count_dict(5), of "bigram_windows ?toks"]
    by blast
  obtain tp where tp: "conditional_probs (context_totals ?tc) ?tc [] = Inr tp"
    using conditional_probs_fresh [OF count_dict(1) count_dict(5), of "trigram_windows ?toks"]
    by blast
  show ?thesis using assms bp tp
    by (simp add: TrigramModel_train_def Let_def fresh_model_def)
qed


section \<open>Properties of the trigram model\<close>

lemma train_lambdas:
  assumes "TrigramModel_train m corpus = Inr m'"
  shows "lambda1 m' = lambda1 m \<and> lambda2 m' = lambda2 m \<and> lambda3 m' = lambda3 m"
  using assms
  by (auto simp: TrigramModel_train_def Let_def split: if_splits sum.splits)

lemma save_lambdas:
  assumes "TrigramModel_save m = Inr st"
  shows "p_lambda1 st = lambda1 m \<and> p_lambda2 st = lambda2 m \<and> p_lambda3 st = lambda3 m"
  using assms by (auto simp: TrigramModel_save_def split: sum.splits)

lemma split_abc: "py_split (ustr ''a b c'') = [[97], [98], [99]]"
  by (simp add: ustr_def py_split_def is_space_def)

lemma split_aaa: "py_split (ustr ''a a a'') = [[97], [97], [97]]"
  by (simp add: ustr_def py_split_def is_space_def)

lemma exact_arith_simps [simp]:
  "fadd exact_arith x y = x + y" "fmul exact_arith x y = x * y" "fdiv exact_arith x y = x / y"
  "fpow exact_arith x y = x powr y" "flit exact_arith c = c"
  by (simp_all add: exact_arith_def)



lemma float_accurate_exact: "float_accurate exact_arith"
  by (simp add: float_accurate_def)

lemma init_default:
  "TrigramModel_init exact_arith (1 / 10) (3 / 10) (3 / 5)
   = Inr (fresh_model (1 / 10) (3 / 10) (3 / 5))"
  by (simp add: TrigramModel_init_def weights_accepted_def)

lemma init_fresh:
  "TrigramModel_init fa l1 l2 l3 = Inr m \<Longrightarrow> m = fresh_model l1 l2 l3 \<and> weights_accepted fa l1 l2 l3"
  by (auto simp: TrigramModel_init_def split: if_splits)

lemma init_rejects_fifths:
  assumes "float_accurate fa"
  shows "TrigramModel_init fa (2 / 10) (2 / 10) (2 / 10) = Inl AssertionError"
proof -
  have acc: "\<bar>fadd fa x y - (x + y)\<bar> \<le> \<bar>x + y\<bar> / 1000" for x y
  proof -
    have "\<bar>fadd fa x y - (x + y)\<bar> \<le> \<bar>x + y\<bar> / 2 ^ 53"
      using assms by (simp add: float_accurate_def)
    also have "\<dots> \<le> \<bar>x + y\<bar> / 1000"
      by (rule divide_left_mono) simp_all
    finally show ?thesis .
  qed
  define a where "a = fadd fa (2 / 10) (2 / 10)"
  define b where "b = fadd fa a (2 / 10)"
  define c where "c = fadd fa b (- 1)"
  have "\<bar>a - (2 / 10 + 2 / 10)\<bar> \<le> \<bar>2 / 10 + 2 / 10 :: real\<bar> / 1000"
    unfolding a_def by (rule acc)
  then have "\<bar>a - 4 / 10\<bar> \<le> 4 / 10000" by simp
  then have a: "39 / 100 \<le> a" "a \<le> 41 / 100"
    using abs_le_D1 [of "a - 4 / 10" "4 / 10000"] abs_le_D2 [of "a - 4 / 10" "4 / 10000"]
    by linarith+
  have "\<bar>b - (a + 2 / 10)\<bar> \<le> \<bar>a + 2 / 10\<bar> / 1000"
    unfolding b_def by (rule acc)
  moreover have "\<bar>a + 2 / 10\<bar> = a + 2 / 10" using a by simp
  ultimately have hb: "\<bar>b - (a + 2 / 10)\<bar> \<le> (a + 2 / 10) / 1000" by simp
  have b: "58 / 100 \<le> b" "b \<le> 62 / 100"
    using abs_le_D1 [OF hb] abs_le_D2 [OF hb] a by (simp_all add: field_simps)
  have "\<bar>c - (b + - 1)\<bar> \<le> \<bar>b + - 1\<bar> / 1000"
    unfolding c_def by (rule acc)
  moreover have "\<bar>b + - 1\<bar> = 1 - b" using b by simp
  ultimately have hc: "\<bar>c - (b + - 1)\<bar> \<le> (1 - b) / 1000" by simp
  have c: "c \<le> - (37 / 100)"
    using abs_le_D1 [OF hc] b by (simp add: field_simps)
  have "\<bar>flit fa (1 / 1000000) - 1 / 1000000\<bar> \<le> (1 / 1000000) / 2 ^ 53"
    using assms by (simp add: float_accurate_def)
  also have "\<dots> \<le> 1 / 1000000" by simp
  finally have hl: "\<bar>flit fa (1 / 1000000) - 1 / 1000000\<bar> \<le> 1 / 1000000" .
  have l: "flit fa (1 / 1000000) \<le> 2 / 1000000"
    using abs_le_D1 [OF hl] by linarith
  have "\<bar>c\<bar> = - c" using c by simp
  with c l have "\<not> \<bar>c\<bar> < flit fa (1 / 1000000)" by linarith
  then show ?thesis
    by (simp add: TrigramModel_init_def weights_accepted_def a_def b_def c_def)
qed

text \<open>
  C5, as the code has it: in every state reached by construction and training the weights
  pass the test of the constructor, which is a test on the float sum taken from left to
  right, \<^verbatim>\<open>abs(lambda1 + lambda2 + lambda3 - 1.0) < 1e-6\<close> (the constructor asserts it and
  training does not change the weights); and constructing with (0.2, 0.2, 0.2) fails,
  whenever float addition is accurate to the relative error \<open>2\<^sup>-\<^sup>5\<^sup>3\<close>. Neither the sign of
  a weight nor the exact sum is checked.
\<close>

theorem C5_weights_sum_invariant:
  "(built fa m \<longrightarrow> weights_accepted fa (lambda1 m) (lambda2 m) (lambda3 m))
   \<and> (float_accurate fa \<longrightarrow> TrigramModel_init fa (2 / 10) (2 / 10) (2 / 10) = Inl AssertionError)"
proof (intro conjI impI)
  assume "built fa m"
  then show "weights_accepted fa (lambda1 m) (lambda2 m) (lambda3 m)"
  proof (induction rule: built.induct)
    case (b_init l1 l2 l3 m)
    then show ?case using init_fresh [of fa l1 l2 l3 m] by (simp add: fresh_model_def)
  next
    case (b_train m corpus m')
    then show ?case using train_lambdas [of m corpus m'] by simp
  qed
next
  assume "float_accurate fa"
  then show "TrigramModel_init fa (2 / 10) (2 / 10) (2 / 10) = Inl AssertionError"
    by (rule init_rejects_fifths)
qed

theorem C5_weights_sum_invariant_witness:
  "\<exists>m. TrigramModel_train (fresh_model (1 / 10) (3 / 10) (3 / 5)) (ustr ''a b c'') = Inr m
     \<and> built exact_arith m
     \<and> weights_accepted exact_arith (lambda1 m) (lambda2 m) (lambda3 m)
     \<and> unigram_probs m \<noteq> []
     \<and> TrigramModel_init exact_arith (2 / 10) (2 / 10) (2 / 10) = Inl AssertionError"
proof -
  have "\<exists>m. TrigramModel_train (fresh_model (1 / 10) (3 / 10) (3 / 5)) (ustr ''a b c'') = Inr m"
    by (rule train_fresh_succeeds) (simp add: split_abc)
  then obtain m where tr:
    "TrigramModel_train (fresh_model (1 / 10) (3 / 10) (3 / 5)) (ustr ''a b c'') = Inr m"
    by blast
  have b: "built exact_arith m"
    by (rule built.b_train [OF built.b_init [OF init_default] tr])
  have u: "unigram_probs m \<noteq> []"
    using train_fresh(9) [OF tr] train_fresh(5) [OF tr] count_dict(2) [of "py_split (ustr ''a b c'')"]
    by (auto simp: split_abc)
  from C5_weights_sum_invariant [of exact_arith m] b float_accurate_exact tr u
  show ?thesis by blast
qed

text \<open>
  The claim C5 as stated also promises non-negative weights in every reachable state,
  loaded ones included. The constructor accepts (2, -1, 0), whose float sum is exactly 1;
  and \<^verbatim>\<open>load\<close> installs the weights of the file without a check, here
  (0.25, 0.25, 0.25), whose sum is 0.75. No operation of this example rounds.
\<close>

theorem C5_negative_weight_counterexample:
  "reachable exact_arith (fresh_model 2 (- 1) 0) \<and> lambda2 (fresh_model 2 (- 1) 0) < 0
   \<and> reachable exact_arith (TrigramModel_load (fresh_model 2 (- 1) 0) bad_weights_file)
   \<and> lambda1 (TrigramModel_load (fresh_model 2 (- 1) 0) bad_weights_file)
     + lambda2 (TrigramModel_load (fresh_model 2 (- 1) 0) bad_weights_file)
     + lambda3 (TrigramModel_load (fresh_model 2 (- 1) 0) bad_weights_file) = 3 / 4"
proof -
  have "TrigramModel_init exact_arith 2 (- 1) 0 = Inr (fresh_model 2 (- 1) 0)"
    by (simp add: TrigramModel_init_def weights_accepted_def)
  then have r: "reachable exact_arith (fresh_model 2 (- 1) 0)" by (rule reachable.r_init)
  then have "reachable exact_arith (TrigramModel_load (fresh_model 2 (- 1) 0) bad_weights_file)"
    by (rule reachable.r_load)
  with r show ?thesis
    by (simp add: fresh_model_def TrigramModel_load_def bad_weights_file_def)
qed

lemma map_of_inner:
  "distinct (map fst xs) \<Longrightarrow>
   map_of (inner T c xs) w = map_option (\<lambda>n. real n / real (T c)) (map_of xs (c, w))"
proof (induction xs)
  case Nil
  then show ?case by (simp add: inner_def)
next
  case (Cons x xs)
  obtain c' w' n where x: "x = ((c', w'), n)" by (metis prod.collapse)
  have IH: "map_of (inner T c xs) w = map_option (\<lambda>n. real n / real (T c)) (map_of xs (c, w))"
    using Cons by simp
  have i: "inner T c (x # xs) = (if c' = c then (w', real n / real (T c)) # inner T c xs else inner T c xs)"
    by (simp add: inner_def x)
  show ?case unfolding i using IH by (auto simp: x)
qed

lemma dict_get_map_values:
  "dict_get (map (\<lambda>kv. (fst kv, h (snd kv))) d) k x = (case map_of d k of None \<Rightarrow> x | Some v \<Rightarrow> h v)"
  by (induction d) (auto simp: dict_get_def)

lemma grouped_lookup:
  assumes g: "grouped T P xs" and d: "distinct (map fst xs)"
  shows "dict_get (dict_get P c []) w x
         = (case map_of xs (c, w) of None \<Rightarrow> x | Some n \<Rightarrow> real n / real (T c))"
proof (cases "c \<in> (\<lambda>kv. fst (fst kv)) ` set xs")
  case True
  with g have "dict_get P c [] = inner T c xs" by (simp add: grouped_def dict_get_def)
  then show ?thesis using map_of_inner [OF d, of T c w]
    by (simp add: dict_get_def split: option.splits)
next
  case False
  with g have "dict_get P c [] = []" by (simp add: grouped_def dict_get_def)
  moreover have "map_of xs (c, w) = None"
    using False by (force simp: map_of_eq_None_iff image_iff)
  ultimately show ?thesis by (simp add: dict_get_def)
qed

lemma interpolated_prob_trained:
  assumes "TrigramModel_train (fresh_model l1 l2 l3) corpus = Inr m"
  shows "interpolated_prob m w1 w2 w3 =
           l1 * spec_P_uni (py_split corpus) w3
         + l2 * (if (w2, w3) \<in> set (bigram_windows (py_split corpus))
                 then spec_P_bi (py_split corpus) w2 w3
                 else spec_P_uni (py_split corpus) w3)
         + l3 * spec_P_tri (py_split corpus) w1 w2 w3"
proof -
  let ?toks = "py_split corpus"
  note tf = train_fresh [OF assms]
  have len: "?toks \<noteq> []" using tf(1) by auto
  have vs: "vocab_size m = card (set ?toks)"
    unfolding tf(8) tf(5)
    using count_dict(1) [of ?toks] count_dict(2) [of ?toks]
    by (metis distinct_card length_map)
  have "0 < card (set ?toks)" using len by (simp add: card_gt_0_iff)
  then have mx: "max (vocab_size m) 1 = card (set ?toks)" using vs by simp
  have mu: "map_of (unigram_counts m) w3
            = (if w3 \<in> set ?toks then Some (count_list ?toks w3) else None)"
    unfolding tf(5) by (rule count_dict(4))
  have mb: "map_of (bigram_counts m) (w2, w3)
            = (if (w2, w3) \<in> set (bigram_windows ?toks)
               then Some (count_list (bigram_windows ?toks) (w2, w3)) else None)"
    unfolding tf(6) by (rule count_dict(4))
  have mt: "map_of (trigram_counts m) ([w1, w2], w3)
            = (if ([w1, w2], w3) \<in> set (trigram_windows ?toks)
               then Some (count_list (trigram_windows ?toks) ([w1, w2], w3)) else None)"
    unfolding tf(7) by (rule count_dict(4))
  have wb: "wsum (\<lambda>k. fst k = w2) (bigram_counts m)
            = length (filter (\<lambda>k. fst k = w2) (bigram_windows ?toks))"
    unfolding tf(6) by (rule count_dict(3))
  have wt: "wsum (\<lambda>k. fst k = [w1, w2]) (trigram_counts m)
            = length (filter (\<lambda>k. fst k = [w1, w2]) (trigram_windows ?toks))"
    unfolding tf(7) by (rule count_dict(3))
  have uni: "dict_get (unigram_probs m) w3 (1 / real (max (vocab_size m) 1)) = spec_P_uni ?toks w3"
    unfolding tf(9) dict_get_map_values [where h = "\<lambda>c. real c / real (length ?toks)"] mx
    by (simp add: mu spec_P_uni_def)
  have bi: "dict_get (dict_get (bigram_probs m) w2 []) w3 x
            = (if (w2, w3) \<in> set (bigram_windows ?toks) then spec_P_bi ?toks w2 w3 else x)" for x
    unfolding grouped_lookup [OF tf(10) count_dict(1) [of "bigram_windows ?toks", folded tf(6)]]
    by (simp add: mb wb spec_P_bi_def)
  have tri: "dict_get (dict_get (trigram_probs m) [w1, w2] []) w3 0 = spec_P_tri ?toks w1 w2 w3"
    unfolding grouped_lookup [OF tf(11) count_dict(1) [of "trigram_windows ?toks", folded tf(7)]]
    by (simp add: mt wt spec_P_tri_def)
  show ?thesis
    unfolding interpolated_prob_def Let_def uni bi tri tf(2,3,4) by simp
qed

text \<open>
  C1, as the code has it: for a model constructed with weights \<open>l1, l2, l3\<close> and
  trained on a corpus, the interpolated probability is
  \<open>l1 * P_uni(w3) + l2 * P_bi(w3 | w2) + l3 * P_tri(w3 | w1, w2)\<close> over the token list of
  the corpus, where \<open>P_uni\<close> is the unigram estimate with the uniform fallback
  \<open>1 / vocab_size\<close>, \<open>P_tri\<close> is 0 for an unobserved context or continuation, and
  \<open>P_bi\<close> is the conditional bigram estimate when the pair \<open>(w2, w3)\<close> was observed and
  falls back to \<open>P_uni(w3)\<close> when it was not.
\<close>

theorem C1_interpolated_prob:
  assumes "TrigramModel_init fa l1 l2 l3 = Inr m0"
    and "TrigramModel_train m0 corpus = Inr m"
  shows "interpolated_prob m w1 w2 w3 =
           l1 * spec_P_uni (py_split corpus) w3
         + l2 * (if (w2, w3) \<in> set (bigram_windows (py_split corpus))
                 then spec_P_bi (py_split corpus) w2 w3
                 else spec_P_uni (py_split corpus) w3)
         + l3 * spec_P_tri (py_split corpus) w1 w2 w3"
proof -
  have "m0 = fresh_model l1 l2 l3"
    using assms(1) by (auto simp: TrigramModel_init_def split: if_splits)
  with assms(2) show ?thesis by (simp add: interpolated_prob_trained)
qed

theorem C1_interpolated_prob_witness:
  "map_sum id (\<lambda>m. interpolated_prob m [97] [98] [99])
     (TrigramModel_train (fresh_model (1 / 10) (3 / 10) (3 / 5)) (ustr ''a b c''))
   = Inr (14 / 15)"
proof -
  have "\<exists>m. TrigramModel_train (fresh_model (1 / 10) (3 / 10) (3 / 5)) (ustr ''a b c'') = Inr m"
    by (rule train_fresh_succeeds) (simp add: split_abc)
  then obtain m where tr:
    "TrigramModel_train (fresh_model (1 / 10) (3 / 10) (3 / 5)) (ustr ''a b c'') = Inr m"
    by blast
  have "interpolated_prob m [97] [98] [99] = 14 / 15"
    unfolding C1_interpolated_prob [OF init_default tr]
    by (simp add: split_abc spec_P_uni_def spec_P_bi_def spec_P_tri_def bigram_windows_def
        trigram_windows_def)
  then show ?thesis by (simp add: tr)
qed

text \<open>
  The claim C1 as stated takes \<open>P_bi\<close> to be the bigram estimate everywhere. After
  training on "a b c" the pair (a, c) is unobserved while a is an observed context: the
  estimate is 0, the code uses \<open>P_uni(c) = 1/3\<close>.
\<close>

theorem C1_unseen_bigram_counterexample:
  "TrigramModel_init exact_arith (1 / 10) (3 / 10) (3 / 5)
     = Inr (fresh_model (1 / 10) (3 / 10) (3 / 5))
   \<and> map_sum id (\<lambda>m. interpolated_prob m [97] [97] [99])
       (TrigramModel_train (fresh_model (1 / 10) (3 / 10) (3 / 5)) (ustr ''a b c''))
     = Inr (2 / 15)
   \<and> spec_interpolated (1 / 10) (3 / 10) (3 / 5) (py_split (ustr ''a b c'')) [97] [97] [99]
     = 1 / 30"
  by (simp add: TrigramModel_init_def weights_accepted_def TrigramModel_train_def split_abc
      fresh_model_def bigram_windows_def trigram_windows_def dict_add_def dict_get_def
      context_totals_def interpolated_prob_def spec_interpolated_def spec_P_uni_def
      spec_P_bi_def spec_P_tri_def)

lemma sum_scaled_counts:
  "(\<Sum>kv\<leftarrow>xs. real (snd kv) / r) = real (wsum (\<lambda>_. True) xs) / r"
  by (induction xs) (auto simp: wsum_def add_divide_distrib)

lemma grouped_sum_one:
  assumes g: "grouped (\<lambda>c. wsum (\<lambda>k. fst k = c) xs) P xs"
    and pos: "\<forall>kv \<in> set xs. 0 < snd kv"
    and mem: "(c, d) \<in> set P"
  shows "sum_list (map snd d) = 1"
proof -
  have "distinct (map fst P)" using g by (simp add: grouped_def)
  with mem have "map_of P c = Some d" by simp
  with g have c: "c \<in> (\<lambda>kv. fst (fst kv)) ` set xs"
    and d: "d = inner (\<lambda>c. wsum (\<lambda>k. fst k = c) xs) c xs"
    by (auto simp: grouped_def split: if_splits)
  from c obtain kv where kv: "kv \<in> set xs" "fst (fst kv) = c" by auto
  then have "(fst kv, snd kv) \<in> set xs" by simp
  then have "snd kv \<le> wsum (\<lambda>k. fst k = c) xs" by (rule wsum_ge_member) (simp add: kv)
  with pos kv have "0 < wsum (\<lambda>k. fst k = c) xs" by force
  then show ?thesis by (simp add: d sum_inner)
qed

text \<open>After one training of a fresh model every table is normalised.\<close>

lemma trained_once_normalised:
  assumes "TrigramModel_train (fresh_model l1 l2 l3) corpus = Inr m"
  shows "sum_list (map snd (unigram_probs m)) = 1
       \<and> (\<forall>(w1, probs) \<in> set (bigram_probs m). sum_list (map snd probs) = 1)
       \<and> (\<forall>(ctx, probs) \<in> set (trigram_probs m). sum_list (map snd probs) = 1)"
proof -
  let ?toks = "py_split corpus"
  note tf = train_fresh [OF assms]
  have "sum_list (map snd (unigram_probs m))
        = (\<Sum>kv\<leftarrow>unigram_counts m. real (snd kv) / real (length ?toks))"
    unfolding tf(9) by (simp add: comp_def)
  also have "\<dots> = real (wsum (\<lambda>_. True) (unigram_counts m)) / real (length ?toks)"
    by (rule sum_scaled_counts)
  also have "\<dots> = 1"
  proof -
    have "wsum (\<lambda>_. True) (unigram_counts m) = length ?toks"
      unfolding tf(5) count_dict(3) by simp
    moreover have "0 < length ?toks" using tf(1) by linarith
    ultimately show ?thesis by simp
  qed
  finally have u: "sum_list (map snd (unigram_probs m)) = 1" .
  have b: "\<forall>(w1, probs) \<in> set (bigram_probs m). sum_list (map snd probs) = 1"
    using grouped_sum_one [OF tf(10)] count_dict(5) [of "bigram_windows ?toks", folded tf(6)]
    by blast
  have t: "\<forall>(ctx, probs) \<in> set (trigram_probs m). sum_list (map snd probs) = 1"
    using grouped_sum_one [OF tf(11)] count_dict(5) [of "trigram_windows ?toks", folded tf(7)]
    by blast
  from u b t show ?thesis by blast
qed

text \<open>
  C10: \<^verbatim>\<open>train\<close> adds the new counts to the counts the model already has, and computes
  the bigram and trigram context totals from the accumulated counts, but sets
  \<^verbatim>\<open>_total_tokens\<close> to the length of the new corpus alone. A model trained twice on
  "a a a" has the count 6 for its token and the total 3: the stored unigram probability
  is 2.0, and the unigram table sums to 2, where the claim says 1. No operation of this
  example rounds.
\<close>

theorem C10_retrained_unigram_sum:
  "(case TrigramModel_train (fresh_model (1 / 10) (3 / 10) (3 / 5)) (ustr ''a a a'') of
      Inl e \<Rightarrow> Inl e
    | Inr m1 \<Rightarrow>
        map_sum id
          (\<lambda>m. (unigram_counts m, total_tokens m, unigram_probs m,
                sum_list (map snd (unigram_probs m))))
          (TrigramModel_train m1 (ustr ''a a a'')))
   = Inr ([([97], 6)], 3, [([97], 2)], 2)"
  by (simp add: TrigramModel_train_def split_aaa fresh_model_def
      bigram_windows_def trigram_windows_def dict_add_def dict_get_def context_totals_def)

text \<open>
  C2: \<^verbatim>\<open>generate\<close> checks that the model is trained; \<^verbatim>\<open>_interpolated_prob\<close> and
  \<^verbatim>\<open>perplexity\<close> do not. On a model that was constructed and never trained or loaded
  they return a value: every unigram falls back to \<open>1 / max(0, 1) = 1\<close>, so each
  probability is \<open>l1 + l2\<close> and the perplexity is its inverse.
\<close>

theorem C2_untrained_perplexity_returns:
  "TrigramModel_init exact_arith (1 / 10) (3 / 10) (3 / 5)
     = Inr (fresh_model (1 / 10) (3 / 10) (3 / 5))
   \<and> unigram_probs (fresh_model (1 / 10) (3 / 10) (3 / 5)) = []
   \<and> interpolated_prob (fresh_model (1 / 10) (3 / 10) (3 / 5)) [97] [98] [99] = 2 / 5
   \<and> perplexity (fresh_model (1 / 10) (3 / 10) (3 / 5)) (ustr ''a b c'') = Inr (5 / 2)"
  by (simp add: TrigramModel_init_def weights_accepted_def perplexity_def split_abc
      interpolated_prob_def fresh_model_def dict_get_def exp_minus)


lemma spec_P_uni_pos: "tokens \<noteq> [] \<Longrightarrow> 0 < spec_P_uni tokens w"
proof -
  assume ne: "tokens \<noteq> []"
  then have "0 < card (set tokens)" by (simp add: card_gt_0_iff)
  moreover have "w \<in> set tokens \<Longrightarrow> 0 < count_list tokens w"
    using count_list_0_iff [of tokens w] by auto
  ultimately show ?thesis using ne by (simp add: spec_P_uni_def)
qed

lemma spec_P_bi_nonneg: "0 \<le> spec_P_bi tokens w2 w3"
  by (simp add: spec_P_bi_def)

lemma spec_P_tri_nonneg: "0 \<le> spec_P_tri tokens w1 w2 w3"
  by (simp add: spec_P_tri_def)

lemma score_nonneg:
  assumes "TrigramModel_train (fresh_model l1 l2 l3) corpus = Inr m"
    and "0 \<le> l1" "0 \<le> l2" "0 \<le> l3"
  shows "0 \<le> interpolated_prob m w1 w2 w3"
proof -
  have ne: "py_split corpus \<noteq> []" using train_fresh(1) [OF assms(1)] by auto
  have u: "0 \<le> spec_P_uni (py_split corpus) w3" using spec_P_uni_pos [OF ne, of w3] by simp
  show ?thesis
    unfolding interpolated_prob_trained [OF assms(1)]
    using assms(2-4) u spec_P_bi_nonneg spec_P_tri_nonneg
    by (auto intro!: add_nonneg_nonneg mult_nonneg_nonneg)
qed



lemma in_set_tl: "x \<in> set (tl xs) \<Longrightarrow> x \<in> set xs"
  by (cases xs) auto

lemma vocabulary_keys:
  assumes "TrigramModel_train (fresh_model l1 l2 l3) corpus = Inr m"
  shows "set (map fst (unigram_probs m)) = set (py_split corpus)"
    and "set (map fst (dict_get (bigram_probs m) w2 [])) \<subseteq> set (py_split corpus)"
    and "set (map fst (dict_get (trigram_probs m) ctx [])) \<subseteq> set (py_split corpus)"
proof -
  note tf = train_fresh [OF assms]
  let ?toks = "py_split corpus"
  show "set (map fst (unigram_probs m)) = set ?toks"
    unfolding tf(9) tf(5) using count_dict(2) [of ?toks] by (simp add: comp_def)
  have sub: "set (map fst (dict_get P c [])) \<subseteq> snd ` fst ` set xs"
    if "grouped T P xs" for T and P :: "('c, (ustr, real) dict) dict" and xs c
  proof (cases "c \<in> (\<lambda>kv. fst (fst kv)) ` set xs")
    case True
    with that have "dict_get P c [] = inner T c xs" by (simp add: grouped_def dict_get_def)
    then show ?thesis using inner_keys [of T c xs] by force
  next
    case False
    with that have "dict_get P c [] = []" by (simp add: grouped_def dict_get_def)
    then show ?thesis by simp
  qed
  have kb: "fst ` set (bigram_counts m) = set (bigram_windows ?toks)"
    unfolding tf(6) using count_dict(2) [of "bigram_windows ?toks"] by simp
  have kt: "fst ` set (trigram_counts m) = set (trigram_windows ?toks)"
    unfolding tf(7) using count_dict(2) [of "trigram_windows ?toks"] by simp
  have "snd ` set (bigram_windows ?toks) \<subseteq> set ?toks"
    by (auto simp: bigram_windows_def dest!: set_zip_rightD in_set_tl)
  with sub [OF tf(10), of w2] show "set (map fst (dict_get (bigram_probs m) w2 [])) \<subseteq> set ?toks"
    unfolding kb by blast
  have "snd ` set (trigram_windows ?toks) \<subseteq> set ?toks"
    by (auto simp: trigram_windows_def dest!: set_zip_rightD in_set_tl)
  with sub [OF tf(11), of ctx] show "set (map fst (dict_get (trigram_probs m) ctx [])) \<subseteq> set ?toks"
    unfolding kt by blast
qed

lemma candidates_trained:
  fixes w1 w2 :: ustr
  assumes "TrigramModel_train (fresh_model l1 l2 l3) corpus = Inr m" and "lists_sets ord"
  defines "cands \<equiv> ord (set (map fst (dict_get (trigram_probs m) [w1, w2] []))
                 \<union> set (map fst (dict_get (bigram_probs m) w2 []))
                 \<union> set (map fst (unigram_probs m)))"
  shows "set cands = set (py_split corpus)" and "distinct cands" and "cands \<noteq> []"
proof -
  have u: "set (map fst (dict_get (trigram_probs m) [w1, w2] []))
                 \<union> set (map fst (dict_get (bigram_probs m) w2 []))
                 \<union> set (map fst (unigram_probs m)) = set (py_split corpus)"
    using vocabulary_keys [OF assms(1)] by blast
  show s: "set cands = set (py_split corpus)" and "distinct cands"
    using assms(2) unfolding cands_def u lists_sets_def by auto
  have "py_split corpus \<noteq> []" using train_fresh(1) [OF assms(1)] by auto
  with s show "cands \<noteq> []" by auto
qed


lemma float_interpolated_prob_exact:
  "float_interpolated_prob exact_arith m w1 w2 w3 = interpolated_prob m w1 w2 w3"
  by (simp add: float_interpolated_prob_def interpolated_prob_def Let_def)











subsection \<open>Generation\<close>

text \<open>
  C4: \<^verbatim>\<open>generate\<close> does not return for every trained model. With the weights (0, 0, 1),
  which the constructor accepts, the seed "c c" is an unobserved context after training
  on "a b c": every candidate has the score 0.0, \<^verbatim>\<open>_next_token_dist\<close> leaves the
  distribution as it is under its guard \<^verbatim>\<open>if total > 0\<close>, and the renormalisation after
  the top-k cut (\<^verbatim>\<open>top_k = 50\<close>, the default), which has no such guard, divides by zero.
  Whatever the stored estimates \<open>p\<close> round to, each score is
  \<^verbatim>\<open>1.0 * 0.0 + 0.0 * p + 0.0 * p\<close>, so rounding plays no part in this example.
\<close>

theorem C4_generate_zero_division:
  "TrigramModel_init exact_arith 0 0 1 = Inr (fresh_model 0 0 1)
   \<and> (case TrigramModel_train (fresh_model 0 0 1) (ustr ''a b c'') of
        Inl e \<Rightarrow> Inl e
      | Inr m \<Rightarrow>
          generate exact_arith sorted_list_of_set (\<lambda>_. 0) (\<lambda>_ _. 0) m [[99], [99]] 1 1
            (Some 50) None)
     = Inl ZeroDivisionError"
proof -
  have s: "sorted_list_of_set (set [[97], [98], [99 :: nat]]) = [[97], [98], [99]]"
    by (simp add: sorted_list_of_set_sort_remdups)
  show ?thesis
    by (simp add: TrigramModel_init_def weights_accepted_def TrigramModel_train_def split_abc
      fresh_model_def bigram_windows_def trigram_windows_def dict_add_def dict_get_def
      context_totals_def float_interpolated_prob_def candidate_scores_def
      next_token_dist_def Let_def s [simplified]
      generate_def generate_tokens_def apply_temperature_def apply_top_k_def
      renormalise_def slice_to_def)
qed

end
